theory Spec2Isabelle
  imports Main "HOL-Library.Sublist"
begin

section \<open>The service worker of sw.js: data model\<close>

text \<open>
  The worker is event driven: every listener and every strategy function of sw.js is
  modelled as a function from the environment (network and storage behaviour), the
  cache storage and the request to a result holding the value the returned promise
  settles to, the cache storage once all work started by the call has settled, and
  the trace of the platform calls made, in the order they were made.
\<close>

record request =
  url :: string
  method' :: string
  destination :: string

record response =
  status :: nat
  statusText :: string
  headers :: "(string \<times> string) list"
  body :: string

text \<open>What a JavaScript expression of sw.js can hand back where a Response is expected.\<close>

datatype jsval = Resp response | Null | Undefined

text \<open>A settled promise: fulfilled with a value, or rejected with an error name.\<close>

datatype 'a outcome = Fulfilled 'a | Rejected string

text \<open>One cache namespace maps request URLs to responses; the cache storage keeps its
  namespaces in creation order, which is the order \<open>caches.match\<close> searches them in.\<close>

type_synonym cache = "string \<rightharpoonup> response"
type_synonym storage = "(string \<times> cache) list"

datatype event =
    Log string
  | Fetch string
  | CachesOpen string
  | CachesMatch string
  | CachePut string string
  | CacheAddAll string "string list"
  | CachesKeys
  | CachesDelete string
  | SkipWaiting
  | ClientsClaim

text \<open>
  The platform around the worker. \<open>net\<close> is what \<open>fetch\<close> does for a URL: \<open>None\<close>
  when the promise rejects (network failure), \<open>Some r\<close> when it resolves with \<open>r\<close>
  (\<open>fetch\<close> never resolves with null). The \<open>_fails\<close> fields say which storage
  operations reject (quota exceeded, storage unavailable). \<open>origin\<close> is the origin
  the worker is served from, against which the path-only URLs of sw.js are resolved.
\<close>

record env =
  net :: "string \<Rightarrow> response option"
  open_fails :: "string \<Rightarrow> bool"
  match_fails :: "string \<Rightarrow> bool"
  put_fails :: "string \<Rightarrow> string \<Rightarrow> bool"
  keys_fails :: bool
  delete_fails :: "string \<Rightarrow> bool"
  origin :: string

record result =
  returned :: "jsval outcome"
  store :: storage
  trace :: "event list"

section \<open>Constants of sw.js (lines 1-27)\<close>

definition CACHE_NAME :: string where
  "CACHE_NAME = ''pizzaria-miragem-v1.2''"

definition STATIC_CACHE :: string where
  "STATIC_CACHE = ''static-v1.2''"

definition DYNAMIC_CACHE :: string where
  "DYNAMIC_CACHE = ''dynamic-v1.2''"

definition STATIC_ASSETS :: "string list" where
  "STATIC_ASSETS =
    [''/'',
     ''/index.html'',
     ''/styles.css'',
     ''/content.html'',
     ''https://fonts.googleapis.com/css2?family=Poppins:wght@400;500;600;700&family=Playfair+Display:wght@700&display=swap'',
     ''https://cdnjs.cloudflare.com/ajax/libs/font-awesome/6.4.0/js/all.min.js'']"

definition NETWORK_FIRST :: "string list" where
  "NETWORK_FIRST = [''/api/'', ''/contact'', ''https://www.google.com/maps/'']"

definition STALE_WHILE_REVALIDATE :: "string list" where
  "STALE_WHILE_REVALIDATE =
    [''https://fonts.googleapis.com/'',
     ''https://fonts.gstatic.com/'',
     ''https://cdnjs.cloudflare.com/'']"

section \<open>String and array primitives used by the listeners\<close>

text \<open>\<open>s.startsWith(p)\<close>, \<open>s.includes(p)\<close> and \<open>xs.some(f)\<close>.\<close>

fun startsWith :: "string \<Rightarrow> string \<Rightarrow> bool" where
  "startsWith s [] = True"
| "startsWith [] (p # ps) = False"
| "startsWith (c # s) (p # ps) = (c = p \<and> startsWith s ps)"

fun includes_str :: "string \<Rightarrow> string \<Rightarrow> bool" where
  "includes_str [] p = (p = [])"
| "includes_str (c # s) p = (startsWith (c # s) p \<or> includes_str s p)"

fun some :: "('a \<Rightarrow> bool) \<Rightarrow> 'a list \<Rightarrow> bool" where
  "some f [] = False"
| "some f (x # xs) = (f x \<or> some f xs)"

text \<open>A URL written as a path in sw.js (\<open>'/index.html'\<close>) denotes that path under the
  worker's origin; the other URLs of sw.js are absolute already.\<close>

definition resolve :: "env \<Rightarrow> string \<Rightarrow> string" where
  "resolve e u = (if startsWith u ''/'' then origin e @ u else u)"

section \<open>Cache storage primitives\<close>

text \<open>\<open>caches.match\<close> over every namespace: the first namespace, in creation order,
  that holds the key answers.\<close>

fun match_all :: "storage \<Rightarrow> string \<Rightarrow> response option" where
  "match_all [] k = None"
| "match_all ((n, c) # cs) k = (case c k of Some r \<Rightarrow> Some r | None \<Rightarrow> match_all cs k)"

definition caches_match :: "env \<Rightarrow> storage \<Rightarrow> string \<Rightarrow> response option outcome" where
  "caches_match e cs k =
     (if match_fails e k then Rejected ''match'' else Fulfilled (match_all cs k))"

text \<open>\<open>caches.open\<close> creates the namespace, after the existing ones, when it is absent.\<close>

definition has_cache :: "storage \<Rightarrow> string \<Rightarrow> bool" where
  "has_cache cs n = some (\<lambda>p. fst p = n) cs"

definition caches_open :: "env \<Rightarrow> storage \<Rightarrow> string \<Rightarrow> storage outcome" where
  "caches_open e cs n =
     (if open_fails e n then Rejected ''open''
      else Fulfilled (if has_cache cs n then cs else cs @ [(n, Map.empty)]))"

text \<open>\<open>cache.put\<close> on the namespace \<open>n\<close>: the entry of the key is overwritten.\<close>

fun put_entry :: "storage \<Rightarrow> string \<Rightarrow> string \<Rightarrow> response \<Rightarrow> storage" where
  "put_entry [] n k r = []"
| "put_entry ((m, c) # cs) n k r =
     (if m = n then (m, c(k \<mapsto> r)) # cs else (m, c) # put_entry cs n k r)"

definition cache_put :: "env \<Rightarrow> storage \<Rightarrow> string \<Rightarrow> string \<Rightarrow> response \<Rightarrow> storage outcome" where
  "cache_put e cs n k r =
     (if put_fails e n k then Rejected ''put'' else Fulfilled (put_entry cs n k r))"

text \<open>Lookup in one namespace (\<open>cache.match\<close> on an opened namespace).\<close>

fun cache_of :: "storage \<Rightarrow> string \<Rightarrow> cache option" where
  "cache_of [] n = None"
| "cache_of ((m, c) # cs) n = (if m = n then Some c else cache_of cs n)"

definition lookup_in :: "storage \<Rightarrow> string \<Rightarrow> string \<Rightarrow> response option" where
  "lookup_in cs n k = (case cache_of cs n of None \<Rightarrow> None | Some c \<Rightarrow> c k)"

section \<open>The synthetic offline responses\<close>

text \<open>Lines 130-136 and 161-167.\<close>

definition offline_response :: response where
  "offline_response =
     \<lparr>status = 503, statusText = ''Service Unavailable'',
      headers = [(''Content-Type'', ''text/plain'')], body = ''Offline''\<rparr>"

text \<open>Line 194: \<open>new Response('Offline', { status: 503 })\<close>. No header is given; the
  constructor sets the content type of a text body.\<close>

definition offline_plain :: response where
  "offline_plain =
     \<lparr>status = 503, statusText = [],
      headers = [(''content-type'', ''text/plain;charset=UTF-8'')], body = ''Offline''\<rparr>"

definition of_match :: "response option \<Rightarrow> jsval" where
  "of_match m = (case m of None \<Rightarrow> Undefined | Some r \<Rightarrow> Resp r)"

section \<open>The strategy functions\<close>

subsection \<open>cacheFirst (lines 105-138)\<close>

text \<open>The \<open>catch\<close> block; \<open>tr\<close> is the trace of the \<open>try\<close> block up to the failure.\<close>

definition cacheFirst_catch :: "env \<Rightarrow> storage \<Rightarrow> request \<Rightarrow> event list \<Rightarrow> result" where
  "cacheFirst_catch e cs req tr =
     (let tr1 = tr @ [Log ''Cache-first strategy failed:''] in
      if destination req = ''document'' then
        (let i = resolve e ''/index.html'' in
         case caches_match e cs i of
           Rejected err \<Rightarrow>
             \<lparr>returned = Rejected err, store = cs, trace = tr1 @ [CachesMatch i]\<rparr>
         | Fulfilled m \<Rightarrow>
             \<lparr>returned = Fulfilled (of_match m), store = cs, trace = tr1 @ [CachesMatch i]\<rparr>)
      else \<lparr>returned = Fulfilled (Resp offline_response), store = cs, trace = tr1\<rparr>)"

definition cacheFirst :: "env \<Rightarrow> storage \<Rightarrow> request \<Rightarrow> result" where
  "cacheFirst e cs req =
     (let k = url req in
      case caches_match e cs k of
        Rejected err \<Rightarrow> cacheFirst_catch e cs req [CachesMatch k]
      | Fulfilled (Some c) \<Rightarrow>
          \<lparr>returned = Fulfilled (Resp c), store = cs, trace = [CachesMatch k]\<rparr>
      | Fulfilled None \<Rightarrow>
          (case net e k of
             None \<Rightarrow> cacheFirst_catch e cs req [CachesMatch k, Fetch k]
           | Some r \<Rightarrow>
               if status r = 200 then
                 (case caches_open e cs DYNAMIC_CACHE of
                    Rejected err \<Rightarrow>
                      cacheFirst_catch e cs req
                        [CachesMatch k, Fetch k, CachesOpen DYNAMIC_CACHE]
                  | Fulfilled cs1 \<Rightarrow>
                      (case cache_put e cs1 DYNAMIC_CACHE k r of
                         Rejected err \<Rightarrow>
                           cacheFirst_catch e cs1 req
                             [CachesMatch k, Fetch k, CachesOpen DYNAMIC_CACHE,
                              CachePut DYNAMIC_CACHE k]
                       | Fulfilled cs2 \<Rightarrow>
                           \<lparr>returned = Fulfilled (Resp r), store = cs2,
                            trace = [CachesMatch k, Fetch k, CachesOpen DYNAMIC_CACHE,
                                     CachePut DYNAMIC_CACHE k]\<rparr>))
               else \<lparr>returned = Fulfilled (Resp r), store = cs,
                     trace = [CachesMatch k, Fetch k]\<rparr>))"

subsection \<open>networkFirst (lines 141-169)\<close>

definition networkFirst_catch :: "env \<Rightarrow> storage \<Rightarrow> request \<Rightarrow> event list \<Rightarrow> result" where
  "networkFirst_catch e cs req tr =
     (let k = url req;
          tr1 = tr @ [Log ''Network-first strategy failed:'', CachesMatch k] in
      case caches_match e cs k of
        Rejected err \<Rightarrow> \<lparr>returned = Rejected err, store = cs, trace = tr1\<rparr>
      | Fulfilled (Some c) \<Rightarrow> \<lparr>returned = Fulfilled (Resp c), store = cs, trace = tr1\<rparr>
      | Fulfilled None \<Rightarrow>
          \<lparr>returned = Fulfilled (Resp offline_response), store = cs, trace = tr1\<rparr>)"

definition networkFirst :: "env \<Rightarrow> storage \<Rightarrow> request \<Rightarrow> result" where
  "networkFirst e cs req =
     (let k = url req in
      case net e k of
        None \<Rightarrow> networkFirst_catch e cs req [Fetch k]
      | Some r \<Rightarrow>
          if status r = 200 then
            (case caches_open e cs DYNAMIC_CACHE of
               Rejected err \<Rightarrow>
                 networkFirst_catch e cs req [Fetch k, CachesOpen DYNAMIC_CACHE]
             | Fulfilled cs1 \<Rightarrow>
                 (case cache_put e cs1 DYNAMIC_CACHE k r of
                    Rejected err \<Rightarrow>
                      networkFirst_catch e cs1 req
                        [Fetch k, CachesOpen DYNAMIC_CACHE, CachePut DYNAMIC_CACHE k]
                  | Fulfilled cs2 \<Rightarrow>
                      \<lparr>returned = Fulfilled (Resp r), store = cs2,
                       trace = [Fetch k, CachesOpen DYNAMIC_CACHE,
                                CachePut DYNAMIC_CACHE k]\<rparr>))
          else \<lparr>returned = Fulfilled (Resp r), store = cs, trace = [Fetch k]\<rparr>)"

subsection \<open>staleWhileRevalidate (lines 172-196)\<close>

text \<open>
  \<open>networkResponsePromise\<close> (lines 178-188): the value it settles to, the storage
  after it has settled and its events. The \<open>put\<close> of line 181 is not awaited: when it
  rejects, nothing of the chain sees it and the worker's \<open>unhandledrejection\<close>
  listener (lines 245-248) logs it.
\<close>

definition networkResponsePromise :: "env \<Rightarrow> storage \<Rightarrow> request \<Rightarrow> jsval \<times> storage \<times> event list" where
  "networkResponsePromise e cs req =
     (let k = url req in
      case net e k of
        None \<Rightarrow> (Null, cs, [Fetch k, Log ''Background fetch failed:''])
      | Some r \<Rightarrow>
          if status r = 200 then
            (case cache_put e cs DYNAMIC_CACHE k r of
               Rejected err \<Rightarrow>
                 (Resp r, cs,
                  [Fetch k, CachePut DYNAMIC_CACHE k,
                   Log ''Service Worker unhandled promise rejection:''])
             | Fulfilled cs2 \<Rightarrow> (Resp r, cs2, [Fetch k, CachePut DYNAMIC_CACHE k]))
          else (Resp r, cs, [Fetch k]))"

definition staleWhileRevalidate_catch :: "env \<Rightarrow> storage \<Rightarrow> request \<Rightarrow> event list \<Rightarrow> result" where
  "staleWhileRevalidate_catch e cs req tr =
     (let k = url req;
          tr1 = tr @ [Log ''Stale-while-revalidate strategy failed:'', Fetch k] in
      case net e k of
        None \<Rightarrow> \<lparr>returned = Fulfilled (Resp offline_plain), store = cs, trace = tr1\<rparr>
      | Some r \<Rightarrow> \<lparr>returned = Fulfilled (Resp r), store = cs, trace = tr1\<rparr>)"

text \<open>Line 191, \<open>cacheResponse || networkResponsePromise\<close>: the cached response when
  there is one, else what the network promise settles to.\<close>

definition staleWhileRevalidate :: "env \<Rightarrow> storage \<Rightarrow> request \<Rightarrow> result" where
  "staleWhileRevalidate e cs req =
     (let k = url req in
      case caches_open e cs DYNAMIC_CACHE of
        Rejected err \<Rightarrow> staleWhileRevalidate_catch e cs req [CachesOpen DYNAMIC_CACHE]
      | Fulfilled cs1 \<Rightarrow>
          (case caches_match e cs1 k of
             Rejected err \<Rightarrow>
               staleWhileRevalidate_catch e cs1 req [CachesOpen DYNAMIC_CACHE, CachesMatch k]
           | Fulfilled cacheResponse \<Rightarrow>
               (case networkResponsePromise e cs1 req of
                  (v, cs2, tr) \<Rightarrow>
                    \<lparr>returned =
                       Fulfilled (case cacheResponse of Some c \<Rightarrow> Resp c | None \<Rightarrow> v),
                     store = cs2,
                     trace = [CachesOpen DYNAMIC_CACHE, CachesMatch k] @ tr\<rparr>)))"

subsection \<open>staleWhileRevalidate, moment by moment\<close>

text \<open>
  The same function with the moments made explicit at which things happen, in the
  order in which they happen: a platform call is made, the fetch that was issued
  settles, the promise handed to \<open>respondWith\<close> is fulfilled.
\<close>

datatype step =
    Calls event
  | Settles string
  | Responds jsval

text \<open>
  What happens once the fetch of line 178 has settled: the \<open>then\<close> handler of lines
  179-184 or the \<open>catch\<close> handler of lines 185-188 runs. \<open>waiting\<close> gives the steps of
  whoever waits for the value of \<open>networkResponsePromise\<close>; the rejection of a write
  that nobody awaits is logged after them.
\<close>

definition networkResponsePromise_steps ::
    "env \<Rightarrow> storage \<Rightarrow> request \<Rightarrow> (jsval \<Rightarrow> step list) \<Rightarrow> step list" where
  "networkResponsePromise_steps e cs req waiting =
     (let k = url req in
      case net e k of
        None \<Rightarrow> [Settles k, Calls (Log ''Background fetch failed:'')] @ waiting Null
      | Some r \<Rightarrow>
          if status r = 200 then
            (case cache_put e cs DYNAMIC_CACHE k r of
               Rejected err \<Rightarrow>
                 [Settles k, Calls (CachePut DYNAMIC_CACHE k)] @ waiting (Resp r) @
                 [Calls (Log ''Service Worker unhandled promise rejection:'')]
             | Fulfilled cs2 \<Rightarrow>
                 [Settles k, Calls (CachePut DYNAMIC_CACHE k)] @ waiting (Resp r))
          else [Settles k] @ waiting (Resp r))"

text \<open>Line 194: the fetch is issued and the response waits for it.\<close>

definition staleWhileRevalidate_catch_steps :: "env \<Rightarrow> request \<Rightarrow> step list \<Rightarrow> step list" where
  "staleWhileRevalidate_catch_steps e req sts =
     (let k = url req in
      sts @ [Calls (Log ''Stale-while-revalidate strategy failed:''), Calls (Fetch k), Settles k,
             Responds (case net e k of None \<Rightarrow> Resp offline_plain | Some r \<Rightarrow> Resp r)])"

text \<open>
  Lines 174-191. The fetch is issued at line 178 and not awaited. At line 191 a cached
  response is a value, and the promise of the function is fulfilled with it there and
  then, before the fetch settles; without a cached response the function returns
  \<open>networkResponsePromise\<close>, and the response waits for it.
\<close>

definition staleWhileRevalidate_steps :: "env \<Rightarrow> storage \<Rightarrow> request \<Rightarrow> step list" where
  "staleWhileRevalidate_steps e cs req =
     (let k = url req in
      case caches_open e cs DYNAMIC_CACHE of
        Rejected err \<Rightarrow>
          staleWhileRevalidate_catch_steps e req [Calls (CachesOpen DYNAMIC_CACHE)]
      | Fulfilled cs1 \<Rightarrow>
          (case caches_match e cs1 k of
             Rejected err \<Rightarrow>
               staleWhileRevalidate_catch_steps e req
                 [Calls (CachesOpen DYNAMIC_CACHE), Calls (CachesMatch k)]
           | Fulfilled cacheResponse \<Rightarrow>
               [Calls (CachesOpen DYNAMIC_CACHE), Calls (CachesMatch k), Calls (Fetch k)] @
               (case cacheResponse of
                  Some c \<Rightarrow>
                    [Responds (Resp c)] @ networkResponsePromise_steps e cs1 req (\<lambda>v. [])
                | None \<Rightarrow> networkResponsePromise_steps e cs1 req (\<lambda>v. [Responds v]))))"

text \<open>The platform calls among the steps, and the values responded with.\<close>

fun calls_of :: "step list \<Rightarrow> event list" where
  "calls_of [] = []"
| "calls_of (Calls ev # sts) = ev # calls_of sts"
| "calls_of (st # sts) = calls_of sts"

fun responses_of :: "step list \<Rightarrow> jsval list" where
  "responses_of [] = []"
| "responses_of (Responds v # sts) = v # responses_of sts"
| "responses_of (st # sts) = responses_of sts"

section \<open>The fetch listener (lines 74-102)\<close>

datatype strategy = NetworkFirst | StaleWhileRevalidate | CacheFirst

text \<open>\<open>None\<close>: the listener returns without calling \<open>respondWith\<close>, and the request
  goes to the network as if there were no worker. Otherwise the strategy chosen and
  the result of the promise handed to \<open>respondWith\<close>.\<close>

definition fetch_listener :: "env \<Rightarrow> storage \<Rightarrow> request \<Rightarrow> (strategy \<times> result) option" where
  "fetch_listener e cs req =
     (if method' req \<noteq> ''GET'' then None
      else if \<not> startsWith (url req) ''http'' then None
      else if some (\<lambda>pattern. includes_str (url req) pattern) NETWORK_FIRST
        then Some (NetworkFirst, networkFirst e cs req)
      else if some (\<lambda>pattern. includes_str (url req) pattern) STALE_WHILE_REVALIDATE
        then Some (StaleWhileRevalidate, staleWhileRevalidate e cs req)
      else Some (CacheFirst, cacheFirst e cs req))"

section \<open>The lifecycle listeners\<close>

subsection \<open>install (lines 30-46)\<close>

text \<open>
  \<open>cache.addAll\<close> fetches every URL of the list; when a fetch rejects or answers
  outside 200-299 the call rejects and stores nothing, otherwise every response is
  stored, all of them or none.
\<close>

definition response_ok :: "response \<Rightarrow> bool" where
  "response_ok r = (200 \<le> status r \<and> status r \<le> 299)"

fun fetch_all :: "env \<Rightarrow> string list \<Rightarrow> (string \<times> response) list option" where
  "fetch_all e [] = Some []"
| "fetch_all e (k # ks) =
     (case net e k of
        None \<Rightarrow> None
      | Some r \<Rightarrow>
          if response_ok r then
            (case fetch_all e ks of None \<Rightarrow> None | Some rs \<Rightarrow> Some ((k, r) # rs))
          else None)"

fun put_all :: "storage \<Rightarrow> string \<Rightarrow> (string \<times> response) list \<Rightarrow> storage" where
  "put_all cs n [] = cs"
| "put_all cs n ((k, r) # rs) = put_all (put_entry cs n k r) n rs"

definition cache_addAll :: "env \<Rightarrow> storage \<Rightarrow> string \<Rightarrow> string list \<Rightarrow> storage outcome" where
  "cache_addAll e cs n ks =
     (case fetch_all e ks of
        None \<Rightarrow> Rejected ''TypeError''
      | Some rs \<Rightarrow>
          if some (put_fails e n) ks then Rejected ''put''
          else Fulfilled (put_all cs n rs))"

text \<open>\<open>returned\<close> is what the promise handed to \<open>event.waitUntil\<close> settles to: the
  install step fails exactly when it is rejected.\<close>

definition install :: "env \<Rightarrow> storage \<Rightarrow> result" where
  "install e cs =
     (let ks = map (resolve e) STATIC_ASSETS;
          tr0 = [Log ''Service Worker installing...'', CachesOpen STATIC_CACHE] in
      case caches_open e cs STATIC_CACHE of
        Rejected err \<Rightarrow>
          \<lparr>returned = Fulfilled Undefined, store = cs,
           trace = tr0 @ [Log ''Failed to cache static assets:'']\<rparr>
      | Fulfilled cs1 \<Rightarrow>
          (let tr1 = tr0 @ [Log ''Caching static assets'', CacheAddAll STATIC_CACHE ks]
                      @ map Fetch ks in
           case cache_addAll e cs1 STATIC_CACHE ks of
             Rejected err \<Rightarrow>
               \<lparr>returned = Fulfilled Undefined, store = cs1,
                trace = tr1 @ [Log ''Failed to cache static assets:'']\<rparr>
           | Fulfilled cs2 \<Rightarrow>
               \<lparr>returned = Fulfilled Undefined, store = cs2,
                trace = tr1 @ [SkipWaiting]\<rparr>))"

subsection \<open>activate (lines 49-71)\<close>

definition caches_delete :: "storage \<Rightarrow> string \<Rightarrow> storage" where
  "caches_delete cs n = filter (\<lambda>p. fst p \<noteq> n) cs"

text \<open>The \<open>map\<close> of lines 61-64 starts one deletion per name; \<open>Promise.all\<close> is
  fulfilled when every one of them is.\<close>

fun delete_each :: "env \<Rightarrow> storage \<Rightarrow> string list \<Rightarrow> storage \<times> event list \<times> bool" where
  "delete_each e cs [] = (cs, [], True)"
| "delete_each e cs (n # ns) =
     (case delete_each e (if delete_fails e n then cs else caches_delete cs n) ns of
        (cs2, tr, ok) \<Rightarrow>
          (cs2, [Log ''Deleting old cache:'', CachesDelete n] @ tr,
           ok \<and> \<not> delete_fails e n))"

definition activate :: "env \<Rightarrow> storage \<Rightarrow> result" where
  "activate e cs =
     (let tr0 = [Log ''Service Worker activating...'', CachesKeys] in
      if keys_fails e then \<lparr>returned = Rejected ''keys'', store = cs, trace = tr0\<rparr>
      else
        (let cacheNames = map fst cs;
             old = filter (\<lambda>cacheName. cacheName \<noteq> STATIC_CACHE \<and>
                                        cacheName \<noteq> DYNAMIC_CACHE) cacheNames in
         case delete_each e cs old of
           (cs2, tr, ok) \<Rightarrow>
             if ok then
               \<lparr>returned = Fulfilled Undefined, store = cs2,
                trace = tr0 @ tr @ [ClientsClaim]\<rparr>
             else \<lparr>returned = Rejected ''delete'', store = cs2, trace = tr0 @ tr\<rparr>))"

section \<open>Notions used in the statements\<close>

text \<open>What the namespaces created before the namespace \<open>n\<close> answer for a key: the
  response \<open>caches.match\<close> finds before it reaches \<open>n\<close>, if any.\<close>

fun match_before :: "storage \<Rightarrow> string \<Rightarrow> string \<Rightarrow> response option" where
  "match_before [] n k = None"
| "match_before ((m, c) # cs) n k =
     (if m = n then None
      else case c k of Some r \<Rightarrow> Some r | None \<Rightarrow> match_before cs n k)"

text \<open>The cache storage and the platform calls after the fetch listener has run.\<close>

definition listener_store :: "storage \<Rightarrow> (strategy \<times> result) option \<Rightarrow> storage" where
  "listener_store cs x = (case x of None \<Rightarrow> cs | Some (s, res) \<Rightarrow> store res)"

definition listener_trace :: "(strategy \<times> result) option \<Rightarrow> event list" where
  "listener_trace x = (case x of None \<Rightarrow> [] | Some (s, res) \<Rightarrow> trace res)"

text \<open>The events that are network fetches.\<close>

fun is_fetch :: "event \<Rightarrow> bool" where
  "is_fetch (Fetch u) = True"
| "is_fetch ev = False"

section \<open>Concrete environments, requests and responses\<close>

text \<open>The network is down and the storage works.\<close>

definition offline_env :: env where
  "offline_env =
     \<lparr>net = (\<lambda>u. None), open_fails = (\<lambda>n. False), match_fails = (\<lambda>k. False),
      put_fails = (\<lambda>n k. False), keys_fails = False, delete_fails = (\<lambda>n. False),
      origin = ''https://pizzaria.example''\<rparr>"

text \<open>The network answers the one URL \<open>k\<close> with \<open>r\<close>.\<close>

definition serving :: "string \<Rightarrow> response \<Rightarrow> env" where
  "serving k r = offline_env\<lparr>net := (\<lambda>u. if u = k then Some r else None)\<rparr>"

text \<open>The network answers every URL with \<open>r\<close>.\<close>

definition everywhere :: "response \<Rightarrow> env" where
  "everywhere r = offline_env\<lparr>net := (\<lambda>u. Some r)\<rparr>"

definition answer :: "nat \<Rightarrow> string \<Rightarrow> response" where
  "answer st b = \<lparr>status = st, statusText = [], headers = [], body = b\<rparr>"

definition get :: "string \<Rightarrow> request" where
  "get u = \<lparr>url = u, method' = ''GET'', destination = []\<rparr>"

section \<open>Facts about the primitives\<close>

lemma startsWith_prefix: "startsWith s p = prefix p s"
  by (induction s p rule: startsWith.induct) auto

lemma includes_str_sublist: "includes_str s p = sublist p s"
proof (induction s)
  case Nil
  then show ?case by simp
next
  case (Cons c s)
  then show ?case by (cases p) (auto simp: startsWith_prefix sublist_Cons_right)
qed

lemma some_iff: "some f xs = (\<exists>x \<in> set xs. f x)"
  by (induction xs) auto

lemma has_cache_iff: "has_cache cs n = (n \<in> fst ` set cs)"
  by (auto simp: has_cache_def some_iff)

lemma match_all_append_empty [simp]: "match_all (cs @ [(n, Map.empty)]) k = match_all cs k"
  by (induction cs) (auto split: option.splits)

lemma match_before_append [simp]: "match_before (cs @ [(n, c)]) n k = match_before cs n k"
  by (induction cs) (auto split: option.splits)

lemma cache_of_filter:
  "cache_of (filter (\<lambda>p. Q (fst p)) cs) n = (if Q n then cache_of cs n else None)"
  by (induction cs) auto

lemma cache_of_put_entry:
  "cache_of (put_entry cs n k r) m =
     (if m = n then (case cache_of cs n of None \<Rightarrow> None | Some c \<Rightarrow> Some (c(k \<mapsto> r)))
      else cache_of cs m)"
  by (induction cs) auto

lemma cache_of_append_empty:
  "cache_of (cs @ [(n, Map.empty)]) m =
     (case cache_of cs m of Some c \<Rightarrow> Some c | None \<Rightarrow> if m = n then Some Map.empty else None)"
  by (induction cs) auto

lemma cache_of_None_iff: "(cache_of cs n = None) = (\<not> has_cache cs n)"
  by (induction cs) (auto simp: has_cache_def split: if_splits)

lemma lookup_in_append_empty [simp]: "lookup_in (cs @ [(n, Map.empty)]) m k = lookup_in cs m k"
  by (simp add: lookup_in_def cache_of_append_empty split: option.splits)

lemma lookup_in_put_entry:
  "has_cache cs n \<Longrightarrow> lookup_in (put_entry cs n k r) n k = Some r"
  using cache_of_None_iff [of cs n]
  by (auto simp: lookup_in_def cache_of_put_entry split: option.splits)

lemma match_all_put_entry:
  "has_cache cs n \<Longrightarrow>
   match_all (put_entry cs n k r) k =
     Some (case match_before cs n k of Some c \<Rightarrow> c | None \<Rightarrow> r)"
  by (induction cs) (auto simp: has_cache_def split: option.splits if_splits)

lemma delete_each_ok:
  "\<forall>n \<in> set ns. \<not> delete_fails e n \<Longrightarrow>
   delete_each e cs ns =
     (filter (\<lambda>p. fst p \<notin> set ns) cs,
      concat (map (\<lambda>n. [Log ''Deleting old cache:'', CachesDelete n]) ns), True)"
proof (induction ns arbitrary: cs)
  case Nil
  then show ?case by simp
next
  case (Cons n ns)
  then show ?case by (auto simp: caches_delete_def intro: filter_cong)
qed

lemma has_cache_append: "has_cache (cs @ [(n, c)]) n"
  by (simp add: has_cache_iff)

lemma opened_has_cache:
  "has_cache (if has_cache cs n then cs else cs @ [(n, Map.empty)]) n"
  by (simp add: has_cache_append)

lemma lookup_in_opened [simp]:
  "lookup_in (if has_cache cs n then cs else cs @ [(n, Map.empty)]) m k = lookup_in cs m k"
  by simp

lemma match_all_opened [simp]:
  "match_all (if has_cache cs n then cs else cs @ [(n, Map.empty)]) k = match_all cs k"
  by simp

lemma match_before_opened [simp]:
  "match_before (if has_cache cs n then cs else cs @ [(n, Map.empty)]) n k = match_before cs n k"
  by simp

lemma cacheFirst_catch_store [simp]: "store (cacheFirst_catch e cs req tr) = cs"
  by (simp add: cacheFirst_catch_def Let_def caches_match_def)

lemma networkFirst_catch_store [simp]: "store (networkFirst_catch e cs req tr) = cs"
  by (simp add: networkFirst_catch_def Let_def caches_match_def split: option.splits)

lemma staleWhileRevalidate_catch_store [simp]: "store (staleWhileRevalidate_catch e cs req tr) = cs"
  by (simp add: staleWhileRevalidate_catch_def Let_def split: option.splits)

lemma cacheFirst_catch_puts:
  "CachePut n k \<in> set (trace (cacheFirst_catch e cs req tr)) \<Longrightarrow> CachePut n k \<in> set tr"
  by (simp add: cacheFirst_catch_def Let_def caches_match_def split: if_splits)

lemma networkFirst_catch_puts:
  "CachePut n k \<in> set (trace (networkFirst_catch e cs req tr)) \<Longrightarrow> CachePut n k \<in> set tr"
  by (simp add: networkFirst_catch_def Let_def caches_match_def split: if_splits option.splits)

lemma staleWhileRevalidate_catch_puts:
  "CachePut n k \<in> set (trace (staleWhileRevalidate_catch e cs req tr)) \<Longrightarrow> CachePut n k \<in> set tr"
  by (simp add: staleWhileRevalidate_catch_def Let_def split: if_splits option.splits)

lemma not_200_cacheFirst:
  assumes "net e (url req) = Some r" and "status r \<noteq> 200"
  shows "store (cacheFirst e cs req) = cs"
    and "CachePut n k \<notin> set (trace (cacheFirst e cs req))"
  using assms
  by (auto simp: cacheFirst_def Let_def caches_match_def dest: cacheFirst_catch_puts
      split: option.splits)

lemma not_200_networkFirst:
  assumes "net e (url req) = Some r" and "status r \<noteq> 200"
  shows "store (networkFirst e cs req) = cs"
    and "CachePut n k \<notin> set (trace (networkFirst e cs req))"
  using assms
  by (simp_all add: networkFirst_def Let_def)

lemma not_200_staleWhileRevalidate:
  assumes "net e (url req) = Some r" and "status r \<noteq> 200"
  shows "lookup_in (store (staleWhileRevalidate e cs req)) m j = lookup_in cs m j"
    and "CachePut n k \<notin> set (trace (staleWhileRevalidate e cs req))"
  using assms
  by (auto simp: staleWhileRevalidate_def networkResponsePromise_def Let_def caches_open_def
      caches_match_def dest: staleWhileRevalidate_catch_puts)

lemma networkResponsePromise_fetches:
  "filter is_fetch (snd (snd (networkResponsePromise e cs req))) = [Fetch (url req)]"
  by (simp add: networkResponsePromise_def Let_def cache_put_def split: option.splits)

section \<open>Classification of requests\<close>

text \<open>
  Claim C5. For every GET request whose URL starts with http the listener picks
  exactly one strategy, a function of the URL alone: network-first when the URL
  contains one of the NETWORK_FIRST patterns (tested first), else
  stale-while-revalidate when it contains one of the STALE_WHILE_REVALIDATE patterns,
  else cache-first; a URL that contains no pattern of either list is handled
  cache-first. Containment is containment as a contiguous substring.
\<close>

theorem classification:
  assumes "method' req = ''GET''" and "prefix ''http'' (url req)"
  shows "fetch_listener e cs req =
     Some (if \<exists>p \<in> set NETWORK_FIRST. sublist p (url req)
             then (NetworkFirst, networkFirst e cs req)
           else if \<exists>p \<in> set STALE_WHILE_REVALIDATE. sublist p (url req)
             then (StaleWhileRevalidate, staleWhileRevalidate e cs req)
           else (CacheFirst, cacheFirst e cs req)) \<and>
     ((\<forall>p \<in> set NETWORK_FIRST \<union> set STALE_WHILE_REVALIDATE. \<not> sublist p (url req))
         \<longrightarrow> fetch_listener e cs req = Some (CacheFirst, cacheFirst e cs req))"
  using assms
  by (simp add: fetch_listener_def startsWith_prefix some_iff includes_str_sublist)

theorem classification_witness:
  "method' (get ''https://pizzaria.example/api/menu'') = ''GET'' \<and>
   prefix ''http'' (url (get ''https://pizzaria.example/api/menu'')) \<and>
   map_option fst (fetch_listener offline_env [] (get ''https://pizzaria.example/api/menu''))
     = Some NetworkFirst \<and>
   map_option fst (fetch_listener offline_env [] (get ''https://fonts.gstatic.com/s/p.woff2''))
     = Some StaleWhileRevalidate \<and>
   map_option fst (fetch_listener offline_env [] (get ''https://pizzaria.example/styles.css''))
     = Some CacheFirst"
proof -
  have a: "\<exists>p \<in> set NETWORK_FIRST. sublist p ''https://pizzaria.example/api/menu''"
    by (simp add: NETWORK_FIRST_def includes_str_sublist [symmetric])
  have b: "\<not> (\<exists>p \<in> set NETWORK_FIRST. sublist p ''https://fonts.gstatic.com/s/p.woff2'')"
    by (simp add: NETWORK_FIRST_def includes_str_sublist [symmetric])
  have c: "\<exists>p \<in> set STALE_WHILE_REVALIDATE. sublist p ''https://fonts.gstatic.com/s/p.woff2''"
    by (simp add: STALE_WHILE_REVALIDATE_def includes_str_sublist [symmetric])
  have d: "\<forall>p \<in> set NETWORK_FIRST \<union> set STALE_WHILE_REVALIDATE.
             \<not> sublist p ''https://pizzaria.example/styles.css''"
    by (simp add: NETWORK_FIRST_def STALE_WHILE_REVALIDATE_def includes_str_sublist [symmetric])
  show ?thesis
    using a b c d
      classification [of "get ''https://pizzaria.example/api/menu''" offline_env "[]"]
      classification [of "get ''https://fonts.gstatic.com/s/p.woff2''" offline_env "[]"]
      classification [of "get ''https://pizzaria.example/styles.css''" offline_env "[]"]
    by (simp add: get_def)
qed

section \<open>The cache-first strategy\<close>

lemma cacheFirst_catch_no_fetch:
  "Fetch u \<notin> set tr \<Longrightarrow> Fetch u \<notin> set (trace (cacheFirst_catch e cs req tr))"
  by (simp add: cacheFirst_catch_def Let_def caches_match_def)

text \<open>
  Claim C9. When some namespace holds an entry for the request's URL, cacheFirst
  issues no network fetch at all; and, the lookup itself not failing, it returns that
  entry (the one \<open>caches.match\<close> finds), leaves the cache storage as it was and makes
  no platform call but the lookup.
\<close>

theorem cacheFirst_hit:
  assumes "match_all cs (url req) = Some c"
  shows "(\<forall>u. Fetch u \<notin> set (trace (cacheFirst e cs req))) \<and>
         (\<not> match_fails e (url req) \<longrightarrow>
            returned (cacheFirst e cs req) = Fulfilled (Resp c) \<and>
            store (cacheFirst e cs req) = cs \<and>
            trace (cacheFirst e cs req) = [CachesMatch (url req)])"
  using assms
  by (simp add: cacheFirst_def Let_def caches_match_def cacheFirst_catch_no_fetch)

theorem cacheFirst_hit_witness:
  "match_all [(STATIC_CACHE, [''https://pizzaria.example/index.html'' \<mapsto> answer 200 ''CACHED''])]
     (url (get ''https://pizzaria.example/index.html'')) = Some (answer 200 ''CACHED'') \<and>
   returned (cacheFirst
       (serving ''https://pizzaria.example/index.html'' (answer 200 ''HOME''))
       [(STATIC_CACHE, [''https://pizzaria.example/index.html'' \<mapsto> answer 200 ''CACHED''])]
       (get ''https://pizzaria.example/index.html''))
     = Fulfilled (Resp (answer 200 ''CACHED'')) \<and>
   Fetch ''https://pizzaria.example/index.html'' \<notin> set (trace (cacheFirst
       (serving ''https://pizzaria.example/index.html'' (answer 200 ''HOME''))
       [(STATIC_CACHE, [''https://pizzaria.example/index.html'' \<mapsto> answer 200 ''CACHED''])]
       (get ''https://pizzaria.example/index.html'')))"
proof -
  have m: "match_all [(STATIC_CACHE, [''https://pizzaria.example/index.html'' \<mapsto> answer 200 ''CACHED''])]
     (url (get ''https://pizzaria.example/index.html'')) = Some (answer 200 ''CACHED'')"
    by (simp add: get_def)
  have f: "\<not> match_fails (serving ''https://pizzaria.example/index.html'' (answer 200 ''HOME''))
     (url (get ''https://pizzaria.example/index.html''))"
    by (simp add: serving_def offline_env_def)
  show ?thesis
    using m f cacheFirst_hit [OF m,
        of "serving ''https://pizzaria.example/index.html'' (answer 200 ''HOME'')"]
    by (simp add: get_def)
qed

section \<open>The interception gate\<close>

lemma puts_cacheFirst:
  "CachePut n k \<in> set (trace (cacheFirst e cs req)) \<Longrightarrow> n = DYNAMIC_CACHE \<and> k = url req"
  by (auto simp: cacheFirst_def cacheFirst_catch_def Let_def caches_match_def caches_open_def
      cache_put_def split: option.splits if_splits)

lemma puts_networkFirst:
  "CachePut n k \<in> set (trace (networkFirst e cs req)) \<Longrightarrow> n = DYNAMIC_CACHE \<and> k = url req"
  by (auto simp: networkFirst_def networkFirst_catch_def Let_def caches_match_def caches_open_def
      cache_put_def split: option.splits if_splits)

lemma puts_staleWhileRevalidate:
  "CachePut n k \<in> set (trace (staleWhileRevalidate e cs req)) \<Longrightarrow>
   n = DYNAMIC_CACHE \<and> k = url req"
  by (auto simp: staleWhileRevalidate_def staleWhileRevalidate_catch_def networkResponsePromise_def
      Let_def caches_match_def caches_open_def cache_put_def split: option.splits if_splits)

lemma listener_puts:
  "CachePut n k \<in> set (listener_trace (fetch_listener e cs req)) \<Longrightarrow>
      method' req = ''GET'' \<and> k = url req \<and> n = DYNAMIC_CACHE"
proof -
  assume a: "CachePut n k \<in> set (listener_trace (fetch_listener e cs req))"
  then have g: "method' req = ''GET''"
    by (simp add: fetch_listener_def listener_trace_def split: if_splits)
  from a have "n = DYNAMIC_CACHE \<and> k = url req"
    by (simp add: fetch_listener_def listener_trace_def puts_cacheFirst puts_networkFirst
        puts_staleWhileRevalidate split: if_splits)
  with g show ?thesis by simp
qed



text \<open>
  Claim C10. The listener hands a request to a strategy only when its method is GET
  and its URL starts with http, which is how line 84 recognises the http and https
  schemes; every http:// and https:// GET request is handed over. Any other request
  leaves the listener without \<open>respondWith\<close>: no platform call is made and the cache
  storage stays as it was. Whatever the listener writes, it writes under the URL of a
  GET request into the dynamic namespace, so a request that is not a GET is neither
  looked up nor stored.
\<close>

theorem interception_gate:
  "(method' req \<noteq> ''GET'' \<or> \<not> prefix ''http'' (url req) \<longrightarrow>
      fetch_listener e cs req = None \<and>
      listener_store cs (fetch_listener e cs req) = cs \<and>
      listener_trace (fetch_listener e cs req) = []) \<and>
   (fetch_listener e cs req \<noteq> None \<longrightarrow>
      method' req = ''GET'' \<and> prefix ''http'' (url req)) \<and>
   (method' req = ''GET'' \<and> (prefix ''http://'' (url req) \<or> prefix ''https://'' (url req)) \<longrightarrow>
      fetch_listener e cs req \<noteq> None) \<and>
   (\<forall>n k. CachePut n k \<in> set (listener_trace (fetch_listener e cs req)) \<longrightarrow>
      method' req = ''GET'' \<and> k = url req \<and> n = DYNAMIC_CACHE)"
proof (intro conjI impI allI)
  assume "method' req \<noteq> ''GET'' \<or> \<not> prefix ''http'' (url req)"
  then show pass: "fetch_listener e cs req = None"
    by (auto simp: fetch_listener_def startsWith_prefix)
  then show "listener_store cs (fetch_listener e cs req) = cs"
    and "listener_trace (fetch_listener e cs req) = []"
    by (simp_all add: listener_store_def listener_trace_def)
next
  assume "fetch_listener e cs req \<noteq> None"
  then show "method' req = ''GET''" and "prefix ''http'' (url req)"
    by (simp_all add: fetch_listener_def startsWith_prefix split: if_splits)
next
  assume a: "method' req = ''GET'' \<and> (prefix ''http://'' (url req) \<or> prefix ''https://'' (url req))"
  then have "prefix ''http'' (url req)"
    by (auto simp: prefix_def)
  with a show "fetch_listener e cs req \<noteq> None"
    by (simp add: fetch_listener_def startsWith_prefix)
next
  fix n k
  assume "CachePut n k \<in> set (listener_trace (fetch_listener e cs req))"
  then show "method' req = ''GET''" and "k = url req" and "n = DYNAMIC_CACHE"
    using listener_puts by blast+
qed

theorem interception_gate_witness:
  "method' \<lparr>url = ''https://pizzaria.example/contact'', method' = ''POST'', destination = []\<rparr>
     \<noteq> ''GET'' \<and>
   fetch_listener (serving ''https://pizzaria.example/contact'' (answer 200 ''SENT'')) []
     \<lparr>url = ''https://pizzaria.example/contact'', method' = ''POST'', destination = []\<rparr> = None \<and>
   listener_store []
     (fetch_listener (serving ''https://pizzaria.example/contact'' (answer 200 ''SENT'')) []
       \<lparr>url = ''https://pizzaria.example/contact'', method' = ''POST'', destination = []\<rparr>) = [] \<and>
   \<not> prefix ''http'' (url (get ''chrome-extension://abc/page.js'')) \<and>
   fetch_listener offline_env [] (get ''chrome-extension://abc/page.js'') = None \<and>
   prefix ''https://'' (url (get ''https://pizzaria.example/styles.css'')) \<and>
   fetch_listener offline_env [] (get ''https://pizzaria.example/styles.css'') \<noteq> None"
  using
    interception_gate [of
      "\<lparr>url = ''https://pizzaria.example/contact'', method' = ''POST'', destination = []\<rparr>"
      "serving ''https://pizzaria.example/contact'' (answer 200 ''SENT'')" "[]"]
    interception_gate [of "get ''chrome-extension://abc/page.js''" offline_env "[]"]
    interception_gate [of "get ''https://pizzaria.example/styles.css''" offline_env "[]"]
  by (simp add: get_def listener_store_def)

section \<open>Activation\<close>

text \<open>
  Claim C8. Whatever namespaces exist when the worker activates, and the storage
  calls not failing, activation deletes exactly the namespaces named neither
  static-v1.2 nor dynamic-v1.2: what is left is the two current namespaces, in their
  order and with the entries they had, a deletion is started for a name exactly when
  it exists and is not one of the two, and the last thing the step does is to claim
  the open pages.
\<close>

theorem activate_collects:
  assumes "\<not> keys_fails e" and "\<forall>n \<in> set (map fst cs). \<not> delete_fails e n"
  shows "store (activate e cs) =
           filter (\<lambda>p. fst p = STATIC_CACHE \<or> fst p = DYNAMIC_CACHE) cs \<and>
         (\<forall>n. cache_of (store (activate e cs)) n =
                (if n = STATIC_CACHE \<or> n = DYNAMIC_CACHE then cache_of cs n else None)) \<and>
         (\<forall>n. (CachesDelete n \<in> set (trace (activate e cs))) =
                (n \<in> set (map fst cs) \<and> n \<noteq> STATIC_CACHE \<and> n \<noteq> DYNAMIC_CACHE)) \<and>
         returned (activate e cs) = Fulfilled Undefined \<and>
         last (trace (activate e cs)) = ClientsClaim"
proof -
  let ?old = "filter (\<lambda>cacheName. cacheName \<noteq> STATIC_CACHE \<and> cacheName \<noteq> DYNAMIC_CACHE)
                (map fst cs)"
  have ok: "\<forall>n \<in> set ?old. \<not> delete_fails e n"
    using assms(2) by auto
  have keep: "filter (\<lambda>p. fst p \<notin> set ?old) cs =
              filter (\<lambda>p. fst p = STATIC_CACHE \<or> fst p = DYNAMIC_CACHE) cs"
    by (rule filter_cong) auto
  have de: "delete_each e cs ?old =
      (filter (\<lambda>p. fst p = STATIC_CACHE \<or> fst p = DYNAMIC_CACHE) cs,
       concat (map (\<lambda>n. [Log ''Deleting old cache:'', CachesDelete n]) ?old), True)"
    using delete_each_ok [OF ok, of cs] unfolding keep .
  have st: "store (activate e cs) =
           filter (\<lambda>p. fst p = STATIC_CACHE \<or> fst p = DYNAMIC_CACHE) cs"
    using assms(1) by (simp add: activate_def Let_def de)
  have tr: "trace (activate e cs) =
      [Log ''Service Worker activating...'', CachesKeys] @
      concat (map (\<lambda>n. [Log ''Deleting old cache:'', CachesDelete n]) ?old) @ [ClientsClaim]"
    using assms(1) by (simp add: activate_def Let_def de)
  have ret: "returned (activate e cs) = Fulfilled Undefined"
    using assms(1) by (simp add: activate_def Let_def de)
  have co: "cache_of (store (activate e cs)) n =
                (if n = STATIC_CACHE \<or> n = DYNAMIC_CACHE then cache_of cs n else None)" for n
    unfolding st by (rule cache_of_filter)
  have del: "(CachesDelete n \<in> set (trace (activate e cs))) =
                (n \<in> set (map fst cs) \<and> n \<noteq> STATIC_CACHE \<and> n \<noteq> DYNAMIC_CACHE)" for n
    unfolding tr by auto
  have la: "last (trace (activate e cs)) = ClientsClaim"
    unfolding tr by simp
  show ?thesis using st co del ret la by blast
qed

theorem activate_collects_witness:
  "\<not> keys_fails offline_env \<and> (\<forall>n. \<not> delete_fails offline_env n) \<and>
   store (activate offline_env
     [(''static-v1.1'', [''https://pizzaria.example/'' \<mapsto> answer 200 ''OLD'']),
      (STATIC_CACHE, [''https://pizzaria.example/'' \<mapsto> answer 200 ''HOME'']),
      (''dynamic-v1.1'', Map.empty),
      (DYNAMIC_CACHE, [''https://pizzaria.example/menu.png'' \<mapsto> answer 200 ''PNG''])]) =
     [(STATIC_CACHE, [''https://pizzaria.example/'' \<mapsto> answer 200 ''HOME'']),
      (DYNAMIC_CACHE, [''https://pizzaria.example/menu.png'' \<mapsto> answer 200 ''PNG''])] \<and>
   last (trace (activate offline_env
     [(''static-v1.1'', [''https://pizzaria.example/'' \<mapsto> answer 200 ''OLD'']),
      (STATIC_CACHE, [''https://pizzaria.example/'' \<mapsto> answer 200 ''HOME'']),
      (''dynamic-v1.1'', Map.empty),
      (DYNAMIC_CACHE, [''https://pizzaria.example/menu.png'' \<mapsto> answer 200 ''PNG''])])) =
     ClientsClaim"
proof -
  have k: "\<not> keys_fails offline_env" and d: "\<forall>n. \<not> delete_fails offline_env n"
    by (simp_all add: offline_env_def)
  show ?thesis
    using k d activate_collects [of offline_env
     "[(''static-v1.1'', [''https://pizzaria.example/'' \<mapsto> answer 200 ''OLD'']),
      (STATIC_CACHE, [''https://pizzaria.example/'' \<mapsto> answer 200 ''HOME'']),
      (''dynamic-v1.1'', Map.empty),
      (DYNAMIC_CACHE, [''https://pizzaria.example/menu.png'' \<mapsto> answer 200 ''PNG''])]"]
    by (simp add: STATIC_CACHE_def DYNAMIC_CACHE_def)
qed

section \<open>The network-first strategy\<close>

text \<open>
  Claim C7, as the code has it. networkFirst starts with the fetch, whatever happens
  afterwards. When the fetch resolves with status 200 and the storage calls do not
  fail, no cache lookup is made at all, the caller gets the network response, and the
  dynamic namespace then holds that response under the request's URL. A lookup over
  every namespace, which is what \<open>caches.match\<close> does, returns it unless a namespace
  created before the dynamic one already holds the URL: then it returns that older
  entry.
\<close>

theorem networkFirst_round_trip:
  "hd (trace (networkFirst e cs req)) = Fetch (url req) \<and>
   (net e (url req) = Some r \<and> status r = 200 \<and>
    \<not> open_fails e DYNAMIC_CACHE \<and> \<not> put_fails e DYNAMIC_CACHE (url req) \<longrightarrow>
      returned (networkFirst e cs req) = Fulfilled (Resp r) \<and>
      trace (networkFirst e cs req) =
        [Fetch (url req), CachesOpen DYNAMIC_CACHE, CachePut DYNAMIC_CACHE (url req)] \<and>
      lookup_in (store (networkFirst e cs req)) DYNAMIC_CACHE (url req) = Some r \<and>
      match_all (store (networkFirst e cs req)) (url req) =
        Some (case match_before cs DYNAMIC_CACHE (url req) of Some c \<Rightarrow> c | None \<Rightarrow> r))"
proof (intro conjI impI)
  show "hd (trace (networkFirst e cs req)) = Fetch (url req)"
    by (simp add: networkFirst_def networkFirst_catch_def Let_def caches_open_def cache_put_def
        caches_match_def split: option.splits)
next
  assume a: "net e (url req) = Some r \<and> status r = 200 \<and>
    \<not> open_fails e DYNAMIC_CACHE \<and> \<not> put_fails e DYNAMIC_CACHE (url req)"
  let ?cs1 = "if has_cache cs DYNAMIC_CACHE then cs else cs @ [(DYNAMIC_CACHE, Map.empty)]"
  have st: "store (networkFirst e cs req) = put_entry ?cs1 DYNAMIC_CACHE (url req) r"
    using a by (simp add: networkFirst_def Let_def caches_open_def cache_put_def)
  show "returned (networkFirst e cs req) = Fulfilled (Resp r)"
    using a by (simp add: networkFirst_def Let_def caches_open_def cache_put_def)
  show "trace (networkFirst e cs req) =
        [Fetch (url req), CachesOpen DYNAMIC_CACHE, CachePut DYNAMIC_CACHE (url req)]"
    using a by (simp add: networkFirst_def Let_def caches_open_def cache_put_def)
  show "lookup_in (store (networkFirst e cs req)) DYNAMIC_CACHE (url req) = Some r"
    unfolding st by (rule lookup_in_put_entry [OF opened_has_cache])
  show "match_all (store (networkFirst e cs req)) (url req) =
        Some (case match_before cs DYNAMIC_CACHE (url req) of Some c \<Rightarrow> c | None \<Rightarrow> r)"
    unfolding st match_all_put_entry [OF opened_has_cache] by simp
qed

theorem networkFirst_round_trip_witness:
  "net (serving ''https://pizzaria.example/api/menu'' (answer 200 ''MENU''))
     (url (get ''https://pizzaria.example/api/menu'')) = Some (answer 200 ''MENU'') \<and>
   status (answer 200 ''MENU'') = 200 \<and>
   \<not> open_fails (serving ''https://pizzaria.example/api/menu'' (answer 200 ''MENU'')) DYNAMIC_CACHE \<and>
   \<not> put_fails (serving ''https://pizzaria.example/api/menu'' (answer 200 ''MENU'')) DYNAMIC_CACHE
       (url (get ''https://pizzaria.example/api/menu'')) \<and>
   returned (networkFirst (serving ''https://pizzaria.example/api/menu'' (answer 200 ''MENU''))
       [(STATIC_CACHE, Map.empty)] (get ''https://pizzaria.example/api/menu''))
     = Fulfilled (Resp (answer 200 ''MENU'')) \<and>
   match_all (store (networkFirst (serving ''https://pizzaria.example/api/menu'' (answer 200 ''MENU''))
       [(STATIC_CACHE, Map.empty)] (get ''https://pizzaria.example/api/menu'')))
     ''https://pizzaria.example/api/menu'' = Some (answer 200 ''MENU'')"
proof -
  let ?k = "''https://pizzaria.example/api/menu''"
  let ?e = "serving ?k (answer 200 ''MENU'')"
  have a: "net ?e (url (get ?k)) = Some (answer 200 ''MENU'')"
    "status (answer 200 ''MENU'') = 200"
    "\<not> open_fails ?e DYNAMIC_CACHE" "\<not> put_fails ?e DYNAMIC_CACHE (url (get ?k))"
    by (simp_all add: serving_def offline_env_def get_def answer_def)
  show ?thesis
    using a networkFirst_round_trip [of ?e "[(STATIC_CACHE, Map.empty)]" "get ?k" "answer 200 ''MENU''"]
    by (simp add: get_def STATIC_CACHE_def DYNAMIC_CACHE_def)
qed

text \<open>
  The round trip through \<open>caches.match\<close> fails when the static namespace holds the
  key. On an origin whose host starts with \<open>contact\<close> every URL contains the pattern
  \<open>/contact\<close>, so the pages that install has put into the static namespace are
  handled network-first: the caller gets the new bytes, the dynamic namespace stores
  them, and the lookup over every namespace still answers with the installed ones.
\<close>

theorem networkFirst_lookup_counterexample:
  "map_option fst
     (fetch_listener ((everywhere (answer 200 ''NEW''))\<lparr>origin := ''https://contact.example''\<rparr>)
        (store (install
           ((everywhere (answer 200 ''OLD''))\<lparr>origin := ''https://contact.example''\<rparr>) []))
        (get ''https://contact.example/index.html'')) = Some NetworkFirst \<and>
   returned (networkFirst
        ((everywhere (answer 200 ''NEW''))\<lparr>origin := ''https://contact.example''\<rparr>)
        (store (install
           ((everywhere (answer 200 ''OLD''))\<lparr>origin := ''https://contact.example''\<rparr>) []))
        (get ''https://contact.example/index.html'')) = Fulfilled (Resp (answer 200 ''NEW'')) \<and>
   match_all (store (networkFirst
        ((everywhere (answer 200 ''NEW''))\<lparr>origin := ''https://contact.example''\<rparr>)
        (store (install
           ((everywhere (answer 200 ''OLD''))\<lparr>origin := ''https://contact.example''\<rparr>) []))
        (get ''https://contact.example/index.html''))) ''https://contact.example/index.html''
     = Some (answer 200 ''OLD'') \<and>
   body (answer 200 ''OLD'') \<noteq> body (answer 200 ''NEW'')"
  by (simp add: fetch_listener_def NETWORK_FIRST_def install_def cache_addAll_def
      response_ok_def resolve_def STATIC_ASSETS_def networkFirst_def Let_def caches_open_def
      cache_put_def everywhere_def offline_env_def get_def answer_def has_cache_def
      STATIC_CACHE_def DYNAMIC_CACHE_def)

section \<open>The stale-while-revalidate strategy\<close>

text \<open>The moment-by-moment account makes the same platform calls and responds with the
  same value as \<open>staleWhileRevalidate\<close>.\<close>

lemma calls_of_append [simp]: "calls_of (xs @ ys) = calls_of xs @ calls_of ys"
  by (induction xs rule: calls_of.induct) simp_all

lemma responses_of_append [simp]: "responses_of (xs @ ys) = responses_of xs @ responses_of ys"
  by (induction xs rule: responses_of.induct) simp_all

lemma staleWhileRevalidate_steps_calls:
  "calls_of (staleWhileRevalidate_steps e cs req) = trace (staleWhileRevalidate e cs req)"
  by (simp add: staleWhileRevalidate_steps_def staleWhileRevalidate_def
      staleWhileRevalidate_catch_steps_def staleWhileRevalidate_catch_def
      networkResponsePromise_steps_def networkResponsePromise_def Let_def
      caches_open_def caches_match_def cache_put_def split: option.splits)

lemma staleWhileRevalidate_steps_responses:
  "map Fulfilled (responses_of (staleWhileRevalidate_steps e cs req)) =
     [returned (staleWhileRevalidate e cs req)]"
  by (simp add: staleWhileRevalidate_steps_def staleWhileRevalidate_def
      staleWhileRevalidate_catch_steps_def staleWhileRevalidate_catch_def
      networkResponsePromise_steps_def networkResponsePromise_def Let_def
      caches_open_def caches_match_def cache_put_def split: option.splits)

lemma networkResponsePromise_steps_settles:
  "\<exists>rest. networkResponsePromise_steps e cs req waiting = Settles (url req) # rest"
  by (simp add: networkResponsePromise_steps_def Let_def cache_put_def split: option.splits)

lemma staleWhileRevalidate_miss_waits:
  assumes "match_all cs (url req) = None"
    and "\<not> open_fails e DYNAMIC_CACHE" and "\<not> match_fails e (url req)"
  shows "take 4 (staleWhileRevalidate_steps e cs req) =
      [Calls (CachesOpen DYNAMIC_CACHE), Calls (CachesMatch (url req)), Calls (Fetch (url req)),
       Settles (url req)]"
proof -
  let ?cs1 = "if has_cache cs DYNAMIC_CACHE then cs else cs @ [(DYNAMIC_CACHE, Map.empty)]"
  have st: "staleWhileRevalidate_steps e cs req =
      [Calls (CachesOpen DYNAMIC_CACHE), Calls (CachesMatch (url req)), Calls (Fetch (url req))] @
      networkResponsePromise_steps e ?cs1 req (\<lambda>v. [Responds v])"
    using assms
    by (simp add: staleWhileRevalidate_steps_def Let_def caches_open_def caches_match_def)
  obtain rest where
    "networkResponsePromise_steps e ?cs1 req (\<lambda>v. [Responds v]) = Settles (url req) # rest"
    using networkResponsePromise_steps_settles by blast
  then show ?thesis
    unfolding st by simp
qed

text \<open>
  Claim C6, as the code has it. When some namespace holds an entry for the URL and
  the open and the lookup do not fail, staleWhileRevalidate returns that entry
  without waiting for the network fetch to settle: the fetch is issued, the caller is
  answered with the cached entry, and only then does the fetch settle. Exactly one
  fetch is issued. When that fetch resolves with status 200 and the write does not
  fail, the dynamic namespace holds the new response afterwards; a lookup over every
  namespace returns the new response unless a namespace created before the dynamic
  one holds the URL, and then it keeps returning that older entry.
\<close>

theorem staleWhileRevalidate_two_phase:
  assumes "match_all cs (url req) = Some c"
    and "\<not> open_fails e DYNAMIC_CACHE" and "\<not> match_fails e (url req)"
  shows "returned (staleWhileRevalidate e cs req) = Fulfilled (Resp c) \<and>
    take 5 (staleWhileRevalidate_steps e cs req) =
      [Calls (CachesOpen DYNAMIC_CACHE), Calls (CachesMatch (url req)), Calls (Fetch (url req)),
       Responds (Resp c), Settles (url req)] \<and>
    calls_of (staleWhileRevalidate_steps e cs req) = trace (staleWhileRevalidate e cs req) \<and>
    responses_of (staleWhileRevalidate_steps e cs req) = [Resp c] \<and>
    filter is_fetch (trace (staleWhileRevalidate e cs req)) = [Fetch (url req)] \<and>
    (net e (url req) = Some r \<and> status r = 200 \<and> \<not> put_fails e DYNAMIC_CACHE (url req) \<longrightarrow>
       lookup_in (store (staleWhileRevalidate e cs req)) DYNAMIC_CACHE (url req) = Some r \<and>
       match_all (store (staleWhileRevalidate e cs req)) (url req) =
         Some (case match_before cs DYNAMIC_CACHE (url req) of Some c' \<Rightarrow> c' | None \<Rightarrow> r))"
proof (intro conjI impI)
  let ?cs1 = "if has_cache cs DYNAMIC_CACHE then cs else cs @ [(DYNAMIC_CACHE, Map.empty)]"
  show ret: "returned (staleWhileRevalidate e cs req) = Fulfilled (Resp c)"
    using assms
    by (simp add: staleWhileRevalidate_def Let_def caches_open_def caches_match_def
        split: prod.splits)
  have st: "staleWhileRevalidate_steps e cs req =
      [Calls (CachesOpen DYNAMIC_CACHE), Calls (CachesMatch (url req)), Calls (Fetch (url req)),
       Responds (Resp c)] @ networkResponsePromise_steps e ?cs1 req (\<lambda>v. [])"
    using assms
    by (simp add: staleWhileRevalidate_steps_def Let_def caches_open_def caches_match_def)
  obtain rest where "networkResponsePromise_steps e ?cs1 req (\<lambda>v. []) = Settles (url req) # rest"
    using networkResponsePromise_steps_settles by blast
  then show "take 5 (staleWhileRevalidate_steps e cs req) =
      [Calls (CachesOpen DYNAMIC_CACHE), Calls (CachesMatch (url req)), Calls (Fetch (url req)),
       Responds (Resp c), Settles (url req)]"
    unfolding st by simp
  show "calls_of (staleWhileRevalidate_steps e cs req) = trace (staleWhileRevalidate e cs req)"
    by (rule staleWhileRevalidate_steps_calls)
  show "responses_of (staleWhileRevalidate_steps e cs req) = [Resp c]"
    using staleWhileRevalidate_steps_responses [of e cs req] ret
    by (auto simp: map_eq_Cons_conv)
  have tr: "trace (staleWhileRevalidate e cs req) =
      [CachesOpen DYNAMIC_CACHE, CachesMatch (url req)] @
      snd (snd (networkResponsePromise e ?cs1 req))"
    using assms
    by (simp add: staleWhileRevalidate_def Let_def caches_open_def caches_match_def
        split: prod.splits)
  show "filter is_fetch (trace (staleWhileRevalidate e cs req)) = [Fetch (url req)]"
    unfolding tr by (simp add: networkResponsePromise_fetches)
  assume a: "net e (url req) = Some r \<and> status r = 200 \<and> \<not> put_fails e DYNAMIC_CACHE (url req)"
  have sto: "store (staleWhileRevalidate e cs req) = put_entry ?cs1 DYNAMIC_CACHE (url req) r"
    using assms a
    by (simp add: staleWhileRevalidate_def Let_def caches_open_def caches_match_def
        networkResponsePromise_def cache_put_def)
  show "lookup_in (store (staleWhileRevalidate e cs req)) DYNAMIC_CACHE (url req) = Some r"
    unfolding sto by (rule lookup_in_put_entry [OF opened_has_cache])
  show "match_all (store (staleWhileRevalidate e cs req)) (url req) =
         Some (case match_before cs DYNAMIC_CACHE (url req) of Some c' \<Rightarrow> c' | None \<Rightarrow> r)"
    unfolding sto match_all_put_entry [OF opened_has_cache] by simp
qed

theorem staleWhileRevalidate_two_phase_witness:
  "match_all [(DYNAMIC_CACHE, [''https://fonts.gstatic.com/s/p.woff2'' \<mapsto> answer 200 ''STALE''])]
     (url (get ''https://fonts.gstatic.com/s/p.woff2'')) = Some (answer 200 ''STALE'') \<and>
   \<not> open_fails (serving ''https://fonts.gstatic.com/s/p.woff2'' (answer 200 ''FRESH'')) DYNAMIC_CACHE \<and>
   \<not> match_fails (serving ''https://fonts.gstatic.com/s/p.woff2'' (answer 200 ''FRESH''))
       (url (get ''https://fonts.gstatic.com/s/p.woff2'')) \<and>
   returned (staleWhileRevalidate (serving ''https://fonts.gstatic.com/s/p.woff2'' (answer 200 ''FRESH''))
       [(DYNAMIC_CACHE, [''https://fonts.gstatic.com/s/p.woff2'' \<mapsto> answer 200 ''STALE''])]
       (get ''https://fonts.gstatic.com/s/p.woff2'')) = Fulfilled (Resp (answer 200 ''STALE'')) \<and>
   staleWhileRevalidate_steps (serving ''https://fonts.gstatic.com/s/p.woff2'' (answer 200 ''FRESH''))
       [(DYNAMIC_CACHE, [''https://fonts.gstatic.com/s/p.woff2'' \<mapsto> answer 200 ''STALE''])]
       (get ''https://fonts.gstatic.com/s/p.woff2'') =
     [Calls (CachesOpen DYNAMIC_CACHE), Calls (CachesMatch ''https://fonts.gstatic.com/s/p.woff2''),
      Calls (Fetch ''https://fonts.gstatic.com/s/p.woff2''), Responds (Resp (answer 200 ''STALE'')),
      Settles ''https://fonts.gstatic.com/s/p.woff2'',
      Calls (CachePut DYNAMIC_CACHE ''https://fonts.gstatic.com/s/p.woff2'')] \<and>
   match_all (store (staleWhileRevalidate
       (serving ''https://fonts.gstatic.com/s/p.woff2'' (answer 200 ''FRESH''))
       [(DYNAMIC_CACHE, [''https://fonts.gstatic.com/s/p.woff2'' \<mapsto> answer 200 ''STALE''])]
       (get ''https://fonts.gstatic.com/s/p.woff2''))) ''https://fonts.gstatic.com/s/p.woff2''
     = Some (answer 200 ''FRESH'')"
proof -
  let ?k = "''https://fonts.gstatic.com/s/p.woff2''"
  let ?e = "serving ?k (answer 200 ''FRESH'')"
  let ?cs = "[(DYNAMIC_CACHE, [?k \<mapsto> answer 200 ''STALE''])]"
  have a: "match_all ?cs (url (get ?k)) = Some (answer 200 ''STALE'')"
    by (simp add: get_def)
  have b: "\<not> open_fails ?e DYNAMIC_CACHE" and c: "\<not> match_fails ?e (url (get ?k))"
    by (simp_all add: serving_def offline_env_def)
  have d: "net ?e (url (get ?k)) = Some (answer 200 ''FRESH'')"
    "status (answer 200 ''FRESH'') = 200" "\<not> put_fails ?e DYNAMIC_CACHE (url (get ?k))"
    by (simp_all add: serving_def offline_env_def get_def answer_def)
  have s: "staleWhileRevalidate_steps ?e ?cs (get ?k) =
     [Calls (CachesOpen DYNAMIC_CACHE), Calls (CachesMatch ?k), Calls (Fetch ?k),
      Responds (Resp (answer 200 ''STALE'')), Settles ?k, Calls (CachePut DYNAMIC_CACHE ?k)]"
    by (simp add: staleWhileRevalidate_steps_def networkResponsePromise_steps_def Let_def
        caches_open_def caches_match_def cache_put_def has_cache_def serving_def offline_env_def
        get_def answer_def)
  show ?thesis
    using a b c d s staleWhileRevalidate_two_phase [OF a b c, of "answer 200 ''FRESH''"]
    by (simp add: get_def)
qed

text \<open>
  The two-phase freshness fails for the assets of the install manifest that are
  served stale-while-revalidate. install stores the script of cdnjs.cloudflare.com in
  the static namespace; the refresh goes to the dynamic namespace, which comes later
  in the lookup order, so the lookup after the refresh still yields the stale bytes.
\<close>

theorem staleWhileRevalidate_refresh_counterexample:
  "body (answer 200 ''STALE'') \<noteq> body (answer 200 ''FRESH'') \<and>
   lookup_in (store (install (everywhere (answer 200 ''STALE'')) [])) STATIC_CACHE
      ''https://cdnjs.cloudflare.com/ajax/libs/font-awesome/6.4.0/js/all.min.js''
     = Some (answer 200 ''STALE'') \<and>
   returned (staleWhileRevalidate (everywhere (answer 200 ''FRESH''))
      (store (install (everywhere (answer 200 ''STALE'')) []))
      (get ''https://cdnjs.cloudflare.com/ajax/libs/font-awesome/6.4.0/js/all.min.js''))
     = Fulfilled (Resp (answer 200 ''STALE'')) \<and>
   match_all (store (staleWhileRevalidate (everywhere (answer 200 ''FRESH''))
      (store (install (everywhere (answer 200 ''STALE'')) []))
      (get ''https://cdnjs.cloudflare.com/ajax/libs/font-awesome/6.4.0/js/all.min.js'')))
      ''https://cdnjs.cloudflare.com/ajax/libs/font-awesome/6.4.0/js/all.min.js''
     = Some (answer 200 ''STALE'') \<and>
   lookup_in (store (staleWhileRevalidate (everywhere (answer 200 ''FRESH''))
      (store (install (everywhere (answer 200 ''STALE'')) []))
      (get ''https://cdnjs.cloudflare.com/ajax/libs/font-awesome/6.4.0/js/all.min.js'')))
      DYNAMIC_CACHE
      ''https://cdnjs.cloudflare.com/ajax/libs/font-awesome/6.4.0/js/all.min.js''
     = Some (answer 200 ''FRESH'')"
  by (simp add: install_def cache_addAll_def response_ok_def resolve_def STATIC_ASSETS_def
      staleWhileRevalidate_def networkResponsePromise_def Let_def caches_open_def
      caches_match_def cache_put_def everywhere_def offline_env_def lookup_in_def
      get_def answer_def has_cache_def STATIC_CACHE_def DYNAMIC_CACHE_def)

section \<open>Which network responses are stored\<close>

text \<open>
  Claim C4, as the code has it. A response the network gave to one of the three
  strategies and whose status is not exactly 200 is never written: no \<open>cache.put\<close> is
  made and every namespace answers as before. A response with status 200 is in the
  dynamic namespace afterwards, provided the open and the write do not fail, for
  staleWhileRevalidate and cacheFirst that the lookup does not fail, and for
  cacheFirst that the lookup found nothing (otherwise it does not fetch).
\<close>

theorem stored_iff_200:
  assumes "net e (url req) = Some r"
  shows
   "(status r \<noteq> 200 \<longrightarrow>
       (\<forall>n k. lookup_in (store (cacheFirst e cs req)) n k = lookup_in cs n k \<and>
              lookup_in (store (networkFirst e cs req)) n k = lookup_in cs n k \<and>
              lookup_in (store (staleWhileRevalidate e cs req)) n k = lookup_in cs n k \<and>
              CachePut n k \<notin> set (trace (cacheFirst e cs req)) \<and>
              CachePut n k \<notin> set (trace (networkFirst e cs req)) \<and>
              CachePut n k \<notin> set (trace (staleWhileRevalidate e cs req)))) \<and>
    (status r = 200 \<and> \<not> open_fails e DYNAMIC_CACHE \<and> \<not> put_fails e DYNAMIC_CACHE (url req)
       \<longrightarrow>
       lookup_in (store (networkFirst e cs req)) DYNAMIC_CACHE (url req) = Some r \<and>
       (\<not> match_fails e (url req) \<longrightarrow>
          lookup_in (store (staleWhileRevalidate e cs req)) DYNAMIC_CACHE (url req) = Some r \<and>
          (match_all cs (url req) = None \<longrightarrow>
             lookup_in (store (cacheFirst e cs req)) DYNAMIC_CACHE (url req) = Some r)))"
proof (intro conjI impI allI)
  let ?cs1 = "if has_cache cs DYNAMIC_CACHE then cs else cs @ [(DYNAMIC_CACHE, Map.empty)]"
  {
    fix n k
    assume s: "status r \<noteq> 200"
    show "lookup_in (store (cacheFirst e cs req)) n k = lookup_in cs n k"
      by (simp add: not_200_cacheFirst(1) [OF assms s])
    show "lookup_in (store (networkFirst e cs req)) n k = lookup_in cs n k"
      by (simp add: not_200_networkFirst(1) [OF assms s])
    show "lookup_in (store (staleWhileRevalidate e cs req)) n k = lookup_in cs n k"
      by (rule not_200_staleWhileRevalidate(1) [OF assms s])
    show "CachePut n k \<notin> set (trace (cacheFirst e cs req))"
      by (rule not_200_cacheFirst(2) [OF assms s])
    show "CachePut n k \<notin> set (trace (networkFirst e cs req))"
      by (rule not_200_networkFirst(2) [OF assms s])
    show "CachePut n k \<notin> set (trace (staleWhileRevalidate e cs req))"
      by (rule not_200_staleWhileRevalidate(2) [OF assms s])
  }
  assume a: "status r = 200 \<and> \<not> open_fails e DYNAMIC_CACHE \<and>
             \<not> put_fails e DYNAMIC_CACHE (url req)"
  have nf: "store (networkFirst e cs req) = put_entry ?cs1 DYNAMIC_CACHE (url req) r"
    using assms a by (simp add: networkFirst_def Let_def caches_open_def cache_put_def)
  show "lookup_in (store (networkFirst e cs req)) DYNAMIC_CACHE (url req) = Some r"
    unfolding nf by (rule lookup_in_put_entry [OF opened_has_cache])
  assume m: "\<not> match_fails e (url req)"
  have swr: "store (staleWhileRevalidate e cs req) = put_entry ?cs1 DYNAMIC_CACHE (url req) r"
    using assms a m
    by (simp add: staleWhileRevalidate_def Let_def caches_open_def caches_match_def
        networkResponsePromise_def cache_put_def)
  show "lookup_in (store (staleWhileRevalidate e cs req)) DYNAMIC_CACHE (url req) = Some r"
    unfolding swr by (rule lookup_in_put_entry [OF opened_has_cache])
  assume miss: "match_all cs (url req) = None"
  have cf: "store (cacheFirst e cs req) = put_entry ?cs1 DYNAMIC_CACHE (url req) r"
    using assms a m miss
    by (simp add: cacheFirst_def Let_def caches_open_def caches_match_def cache_put_def)
  show "lookup_in (store (cacheFirst e cs req)) DYNAMIC_CACHE (url req) = Some r"
    unfolding cf by (rule lookup_in_put_entry [OF opened_has_cache])
qed

theorem stored_iff_200_witness:
  "net (serving ''https://pizzaria.example/index.html'' (answer 200 ''HOME''))
     (url (get ''https://pizzaria.example/index.html'')) = Some (answer 200 ''HOME'') \<and>
   match_all [] (url (get ''https://pizzaria.example/index.html'')) = None \<and>
   lookup_in (store (cacheFirst (serving ''https://pizzaria.example/index.html'' (answer 200 ''HOME''))
       [] (get ''https://pizzaria.example/index.html''))) DYNAMIC_CACHE
     ''https://pizzaria.example/index.html'' = Some (answer 200 ''HOME'') \<and>
   net (serving ''https://pizzaria.example/index.html'' (answer 404 ''Not Found''))
     (url (get ''https://pizzaria.example/index.html'')) = Some (answer 404 ''Not Found'') \<and>
   lookup_in (store (cacheFirst (serving ''https://pizzaria.example/index.html'' (answer 404 ''Not Found''))
       [] (get ''https://pizzaria.example/index.html''))) DYNAMIC_CACHE
     ''https://pizzaria.example/index.html'' = None"
proof -
  let ?k = "''https://pizzaria.example/index.html''"
  have a: "net (serving ?k (answer 200 ''HOME'')) (url (get ?k)) = Some (answer 200 ''HOME'')"
    by (simp add: serving_def get_def)
  have b: "net (serving ?k (answer 404 ''Not Found'')) (url (get ?k)) = Some (answer 404 ''Not Found'')"
    by (simp add: serving_def get_def)
  have c: "status (answer 200 ''HOME'') = 200" "status (answer 404 ''Not Found'') \<noteq> 200"
    by (simp_all add: answer_def)
  have d: "\<not> open_fails (serving ?k (answer 200 ''HOME'')) DYNAMIC_CACHE"
    "\<not> put_fails (serving ?k (answer 200 ''HOME'')) DYNAMIC_CACHE (url (get ?k))"
    "\<not> match_fails (serving ?k (answer 200 ''HOME'')) (url (get ?k))"
    by (simp_all add: serving_def offline_env_def)
  show ?thesis
    using a b c d stored_iff_200 [OF a, of "[]"] stored_iff_200 [OF b, of "[]"]
    by (simp add: get_def lookup_in_def)
qed

text \<open>
  Status 204 is a success status (\<open>response_ok\<close>, the range 200-299), and a response
  that carries it is returned to the caller and not stored.
\<close>

theorem stored_iff_200_counterexample:
  "response_ok (answer 204 []) \<and>
   net (serving ''https://pizzaria.example/api/ping'' (answer 204 []))
     ''https://pizzaria.example/api/ping'' = Some (answer 204 []) \<and>
   map_option (\<lambda>x. (fst x, returned (snd x)))
     (fetch_listener (serving ''https://pizzaria.example/api/ping'' (answer 204 [])) []
       (get ''https://pizzaria.example/api/ping''))
     = Some (NetworkFirst, Fulfilled (Resp (answer 204 []))) \<and>
   listener_store []
     (fetch_listener (serving ''https://pizzaria.example/api/ping'' (answer 204 [])) []
       (get ''https://pizzaria.example/api/ping'')) = []"
  by (simp add: fetch_listener_def NETWORK_FIRST_def listener_store_def networkFirst_def Let_def
      serving_def offline_env_def get_def answer_def response_ok_def)

section \<open>A cache write that fails\<close>

text \<open>
  Claim C3, as the code has it. Let the network have answered with status 200 and
  the write into the dynamic namespace fail. Nothing is stored. cacheFirst (after a
  lookup that found nothing) and networkFirst await the write inside their \<open>try\<close>, so
  their \<open>catch\<close> block runs: it logs the failure and answers in place of the network
  response, cacheFirst with the cached /index.html for a document request and the
  synthetic 503 otherwise, networkFirst with a cached copy of the request if there is
  one and the synthetic 503 otherwise (with a rejection when that lookup fails too).
  staleWhileRevalidate does not await the write: the rejection is logged by the
  \<open>unhandledrejection\<close> listener and the caller gets the cached copy or, without one,
  the network response.
\<close>

theorem write_failure:
  assumes "net e (url req) = Some r" and "status r = 200"
    and "\<not> open_fails e DYNAMIC_CACHE" and "put_fails e DYNAMIC_CACHE (url req)"
  shows
   "(\<not> match_fails e (url req) \<and> match_all cs (url req) = None \<longrightarrow>
       Log ''Cache-first strategy failed:'' \<in> set (trace (cacheFirst e cs req)) \<and>
       returned (cacheFirst e cs req) =
         (if destination req = ''document''
          then (if match_fails e (resolve e ''/index.html'') then Rejected ''match''
                else Fulfilled (of_match (match_all cs (resolve e ''/index.html''))))
          else Fulfilled (Resp offline_response))) \<and>
    Log ''Network-first strategy failed:'' \<in> set (trace (networkFirst e cs req)) \<and>
    returned (networkFirst e cs req) =
      (if match_fails e (url req) then Rejected ''match''
       else Fulfilled (case match_all cs (url req) of
                         Some c \<Rightarrow> Resp c | None \<Rightarrow> Resp offline_response)) \<and>
    (\<not> match_fails e (url req) \<longrightarrow>
       Log ''Service Worker unhandled promise rejection:''
         \<in> set (trace (staleWhileRevalidate e cs req)) \<and>
       returned (staleWhileRevalidate e cs req) =
         Fulfilled (case match_all cs (url req) of Some c \<Rightarrow> Resp c | None \<Rightarrow> Resp r)) \<and>
    (\<forall>n k. lookup_in (store (cacheFirst e cs req)) n k = lookup_in cs n k \<and>
           lookup_in (store (networkFirst e cs req)) n k = lookup_in cs n k \<and>
           lookup_in (store (staleWhileRevalidate e cs req)) n k = lookup_in cs n k)"
proof (intro conjI impI allI)
  assume a: "\<not> match_fails e (url req) \<and> match_all cs (url req) = None"
  show "Log ''Cache-first strategy failed:'' \<in> set (trace (cacheFirst e cs req))"
    using assms a
    by (simp add: cacheFirst_def cacheFirst_catch_def Let_def caches_open_def caches_match_def
        cache_put_def)
  show "returned (cacheFirst e cs req) =
         (if destination req = ''document''
          then (if match_fails e (resolve e ''/index.html'') then Rejected ''match''
                else Fulfilled (of_match (match_all cs (resolve e ''/index.html''))))
          else Fulfilled (Resp offline_response))"
    using assms a
    by (simp add: cacheFirst_def cacheFirst_catch_def Let_def caches_open_def caches_match_def
        cache_put_def)
next
  show "Log ''Network-first strategy failed:'' \<in> set (trace (networkFirst e cs req))"
    using assms
    by (simp add: networkFirst_def networkFirst_catch_def Let_def caches_open_def
        caches_match_def cache_put_def split: option.splits)
  show "returned (networkFirst e cs req) =
      (if match_fails e (url req) then Rejected ''match''
       else Fulfilled (case match_all cs (url req) of
                         Some c \<Rightarrow> Resp c | None \<Rightarrow> Resp offline_response))"
    using assms
    by (simp add: networkFirst_def networkFirst_catch_def Let_def caches_open_def
        caches_match_def cache_put_def split: option.splits)
next
  assume m: "\<not> match_fails e (url req)"
  show "Log ''Service Worker unhandled promise rejection:''
         \<in> set (trace (staleWhileRevalidate e cs req))"
    using assms m
    by (simp add: staleWhileRevalidate_def networkResponsePromise_def Let_def caches_open_def
        caches_match_def cache_put_def)
  show "returned (staleWhileRevalidate e cs req) =
         Fulfilled (case match_all cs (url req) of Some c \<Rightarrow> Resp c | None \<Rightarrow> Resp r)"
    using assms m
    by (simp add: staleWhileRevalidate_def networkResponsePromise_def Let_def caches_open_def
        caches_match_def cache_put_def)
next
  fix n k
  show "lookup_in (store (cacheFirst e cs req)) n k = lookup_in cs n k"
    using assms
    by (simp add: cacheFirst_def Let_def caches_open_def caches_match_def
        cache_put_def split: option.splits)
  show "lookup_in (store (networkFirst e cs req)) n k = lookup_in cs n k"
    using assms
    by (simp add: networkFirst_def Let_def caches_open_def cache_put_def)
  show "lookup_in (store (staleWhileRevalidate e cs req)) n k = lookup_in cs n k"
    using assms
    by (simp add: staleWhileRevalidate_def networkResponsePromise_def Let_def caches_open_def
        caches_match_def cache_put_def)
qed

theorem write_failure_witness:
  "net ((serving ''https://pizzaria.example/api/menu'' (answer 200 ''MENU''))
          \<lparr>put_fails := (\<lambda>n k. True)\<rparr>) (url (get ''https://pizzaria.example/api/menu''))
     = Some (answer 200 ''MENU'') \<and>
   status (answer 200 ''MENU'') = 200 \<and>
   \<not> open_fails ((serving ''https://pizzaria.example/api/menu'' (answer 200 ''MENU''))
          \<lparr>put_fails := (\<lambda>n k. True)\<rparr>) DYNAMIC_CACHE \<and>
   put_fails ((serving ''https://pizzaria.example/api/menu'' (answer 200 ''MENU''))
          \<lparr>put_fails := (\<lambda>n k. True)\<rparr>) DYNAMIC_CACHE (url (get ''https://pizzaria.example/api/menu'')) \<and>
   returned (networkFirst ((serving ''https://pizzaria.example/api/menu'' (answer 200 ''MENU''))
          \<lparr>put_fails := (\<lambda>n k. True)\<rparr>) [] (get ''https://pizzaria.example/api/menu''))
     = Fulfilled (Resp offline_response) \<and>
   returned (staleWhileRevalidate ((serving ''https://pizzaria.example/api/menu'' (answer 200 ''MENU''))
          \<lparr>put_fails := (\<lambda>n k. True)\<rparr>) [] (get ''https://pizzaria.example/api/menu''))
     = Fulfilled (Resp (answer 200 ''MENU''))"
proof -
  let ?e = "(serving ''https://pizzaria.example/api/menu'' (answer 200 ''MENU''))
          \<lparr>put_fails := (\<lambda>n k. True)\<rparr>"
  let ?q = "get ''https://pizzaria.example/api/menu''"
  have a: "net ?e (url ?q) = Some (answer 200 ''MENU'')"
    by (simp add: serving_def get_def)
  have b: "status (answer 200 ''MENU'') = 200"
    by (simp add: answer_def)
  have c: "\<not> open_fails ?e DYNAMIC_CACHE"
    by (simp add: serving_def offline_env_def)
  have d: "put_fails ?e DYNAMIC_CACHE (url ?q)"
    by simp
  have m: "\<not> match_fails ?e (url ?q)"
    by (simp add: serving_def offline_env_def)
  show ?thesis
    using a b c d m write_failure [OF a b c d, of "[]"]
    by simp
qed

text \<open>cacheFirst has the page from the network, the write fails, and the caller gets
  the synthetic 503 in its place.\<close>

theorem write_failure_counterexample:
  "net ((serving ''https://pizzaria.example/menu.html'' (answer 200 ''MENU''))
          \<lparr>put_fails := (\<lambda>n k. True)\<rparr>) ''https://pizzaria.example/menu.html''
     = Some (answer 200 ''MENU'') \<and>
   returned (cacheFirst
       ((serving ''https://pizzaria.example/menu.html'' (answer 200 ''MENU''))
          \<lparr>put_fails := (\<lambda>n k. True)\<rparr>) []
       (get ''https://pizzaria.example/menu.html''))
     = Fulfilled (Resp offline_response) \<and>
   body offline_response = ''Offline'' \<and> status offline_response = 503"
  by (simp add: cacheFirst_def cacheFirst_catch_def Let_def caches_open_def caches_match_def
      cache_put_def serving_def offline_env_def get_def answer_def has_cache_def
      offline_response_def)

section \<open>Installation\<close>

text \<open>
  Claim C2, as the code has it. When an asset of the manifest cannot be fetched
  (the fetch rejects or answers outside 200-299), nothing is added to any namespace,
  the failure is logged, every asset has been requested once and not again, and
  \<open>skipWaiting\<close> is not called; \<open>skipWaiting\<close> is called exactly when the namespace could
  be opened, every asset was fetched and every write succeeded. The promise handed to
  \<open>waitUntil\<close> is fulfilled all the same, because the \<open>catch\<close> of lines 42-44 swallows
  the rejection: the install step itself does not fail.
\<close>

theorem install_failure:
  "(fetch_all e (map (resolve e) STATIC_ASSETS) = None \<longrightarrow>
      returned (install e cs) = Fulfilled Undefined \<and>
      (\<forall>n k. lookup_in (store (install e cs)) n k = lookup_in cs n k) \<and>
      Log ''Failed to cache static assets:'' \<in> set (trace (install e cs)) \<and>
      SkipWaiting \<notin> set (trace (install e cs)) \<and>
      filter is_fetch (trace (install e cs)) =
        (if open_fails e STATIC_CACHE then []
         else map Fetch (map (resolve e) STATIC_ASSETS))) \<and>
   (SkipWaiting \<in> set (trace (install e cs))) =
      (\<not> open_fails e STATIC_CACHE \<and>
       fetch_all e (map (resolve e) STATIC_ASSETS) \<noteq> None \<and>
       \<not> some (put_fails e STATIC_CACHE) (map (resolve e) STATIC_ASSETS))"
proof (intro conjI impI allI)
  have nf: "filter is_fetch (map Fetch ks) = map Fetch ks" for ks
    by (induction ks) simp_all
  show "(SkipWaiting \<in> set (trace (install e cs))) =
      (\<not> open_fails e STATIC_CACHE \<and>
       fetch_all e (map (resolve e) STATIC_ASSETS) \<noteq> None \<and>
       \<not> some (put_fails e STATIC_CACHE) (map (resolve e) STATIC_ASSETS))"
    by (auto simp: install_def Let_def caches_open_def cache_addAll_def split: option.splits)
  assume a: "fetch_all e (map (resolve e) STATIC_ASSETS) = None"
  show "returned (install e cs) = Fulfilled Undefined"
    using a by (simp add: install_def Let_def caches_open_def cache_addAll_def)
  show "lookup_in (store (install e cs)) n k = lookup_in cs n k" for n k
    using a by (simp add: install_def Let_def caches_open_def cache_addAll_def)
  show "Log ''Failed to cache static assets:'' \<in> set (trace (install e cs))"
    using a by (simp add: install_def Let_def caches_open_def cache_addAll_def)
  show "SkipWaiting \<notin> set (trace (install e cs))"
    using a by (auto simp: install_def Let_def caches_open_def cache_addAll_def)
  show "filter is_fetch (trace (install e cs)) =
        (if open_fails e STATIC_CACHE then []
         else map Fetch (map (resolve e) STATIC_ASSETS))"
    using a nf by (simp add: install_def Let_def caches_open_def cache_addAll_def)
qed

theorem install_failure_witness:
  "fetch_all (offline_env\<lparr>net := (\<lambda>u. if u = ''https://pizzaria.example/content.html''
                              then Some (answer 404 ''Not Found'') else Some (answer 200 ''OK''))\<rparr>)
     (map (resolve (offline_env\<lparr>net := (\<lambda>u. if u = ''https://pizzaria.example/content.html''
                              then Some (answer 404 ''Not Found'') else Some (answer 200 ''OK''))\<rparr>))
        STATIC_ASSETS) = None \<and>
   store (install (offline_env\<lparr>net := (\<lambda>u. if u = ''https://pizzaria.example/content.html''
                              then Some (answer 404 ''Not Found'') else Some (answer 200 ''OK''))\<rparr>) [])
     = [(STATIC_CACHE, Map.empty)] \<and>
   SkipWaiting \<notin> set (trace (install (offline_env\<lparr>net := (\<lambda>u. if u = ''https://pizzaria.example/content.html''
                              then Some (answer 404 ''Not Found'') else Some (answer 200 ''OK''))\<rparr>) [])) \<and>
   SkipWaiting \<in> set (trace (install (everywhere (answer 200 ''OK'')) []))"
proof -
  let ?e = "offline_env\<lparr>net := (\<lambda>u. if u = ''https://pizzaria.example/content.html''
                 then Some (answer 404 ''Not Found'') else Some (answer 200 ''OK''))\<rparr>"
  have f: "fetch_all ?e (map (resolve ?e) STATIC_ASSETS) = None"
    by (simp add: response_ok_def resolve_def STATIC_ASSETS_def offline_env_def answer_def)
  have s: "store (install ?e []) = [(STATIC_CACHE, Map.empty)]"
    using f by (simp add: install_def Let_def caches_open_def cache_addAll_def has_cache_def
        offline_env_def)
  have g: "fetch_all (everywhere (answer 200 ''OK''))
             (map (resolve (everywhere (answer 200 ''OK''))) STATIC_ASSETS) \<noteq> None"
    by (simp add: response_ok_def resolve_def STATIC_ASSETS_def everywhere_def offline_env_def
        answer_def)
  have h: "\<not> open_fails (everywhere (answer 200 ''OK'')) STATIC_CACHE \<and>
           \<not> some (put_fails (everywhere (answer 200 ''OK'')) STATIC_CACHE)
               (map (resolve (everywhere (answer 200 ''OK''))) STATIC_ASSETS)"
    by (simp add: everywhere_def offline_env_def STATIC_ASSETS_def)
  show ?thesis
    using f s g h install_failure [of ?e "[]"] install_failure [of "everywhere (answer 200 ''OK'')" "[]"]
    by simp
qed

text \<open>The style sheet cannot be fetched, and the promise handed to \<open>waitUntil\<close> is
  fulfilled.\<close>

theorem install_failure_counterexample:
  "fetch_all
     ((everywhere (answer 200 ''OK''))
        \<lparr>net := (\<lambda>u. if u = ''https://pizzaria.example/styles.css'' then None
                      else Some (answer 200 ''OK''))\<rparr>)
     (map (resolve ((everywhere (answer 200 ''OK''))
        \<lparr>net := (\<lambda>u. if u = ''https://pizzaria.example/styles.css'' then None
                      else Some (answer 200 ''OK''))\<rparr>)) STATIC_ASSETS) = None \<and>
   returned (install
     ((everywhere (answer 200 ''OK''))
        \<lparr>net := (\<lambda>u. if u = ''https://pizzaria.example/styles.css'' then None
                      else Some (answer 200 ''OK''))\<rparr>) []) = Fulfilled Undefined"
  by (simp add: install_def cache_addAll_def response_ok_def resolve_def STATIC_ASSETS_def
      Let_def caches_open_def everywhere_def offline_env_def answer_def has_cache_def)

section \<open>Error paths that hand back no response\<close>

text \<open>
  Claim C1 at three inputs. With the network down and an empty cache storage, a
  request for a font of fonts.gstatic.com is served stale-while-revalidate and the
  promise handed to \<open>respondWith\<close> is fulfilled with null (line 187); a navigation
  served cache-first is fulfilled with undefined, the result of looking up an
  /index.html that is not cached (line 126); and when the lookup of line 155 rejects,
  the promise of networkFirst is rejected.
\<close>

theorem error_paths_without_response:
  "map_option (\<lambda>x. (fst x, returned (snd x)))
     (fetch_listener offline_env [] (get ''https://fonts.gstatic.com/s/poppins.woff2''))
     = Some (StaleWhileRevalidate, Fulfilled Null) \<and>
   map_option (\<lambda>x. (fst x, returned (snd x)))
     (fetch_listener offline_env []
        \<lparr>url = ''https://pizzaria.example/menu'', method' = ''GET'', destination = ''document''\<rparr>)
     = Some (CacheFirst, Fulfilled Undefined) \<and>
   map_option (\<lambda>x. (fst x, returned (snd x)))
     (fetch_listener (offline_env\<lparr>match_fails := (\<lambda>k. True)\<rparr>) []
        (get ''https://pizzaria.example/api/menu''))
     = Some (NetworkFirst, Rejected ''match'')"
  by (simp add: fetch_listener_def NETWORK_FIRST_def STALE_WHILE_REVALIDATE_def
      staleWhileRevalidate_def networkResponsePromise_def cacheFirst_def cacheFirst_catch_def
      networkFirst_def networkFirst_catch_def Let_def caches_open_def caches_match_def
      offline_env_def get_def has_cache_def of_match_def resolve_def)

end
